theory Spec2Isabelle
  imports Main "HOL-Library.Sublist" "HOL-Library.AList"
begin

section \<open>Values, exceptions and the Contact class\<close>

text \<open>
  The values that reach the contact book are Python objects. A prompt answer or a CSV
  field is a \<open>str\<close>, a missing CSV column is \<open>None\<close>, and \<open>PyInt\<close> stands for the
  objects that are neither (the ones \<open>isinstance(x, str)\<close> rejects). A \<open>str\<close> is a HOL
  string; no property below looks inside a character.
\<close>

datatype pyval = PyNone | is_str: PyStr (the_str: string) | PyInt int

text \<open>
  \<open>ContactValidationException\<close> carries a cause and a solution; \<open>__str__\<close> joins them.
  The static methods of the class build the six errors of the constructor.
\<close>

datatype ContactValidationException =
  ContactValidationException (message: string) (solution: string)

definition str_exc :: "ContactValidationException \<Rightarrow> string" where
  "str_exc ex = message ex @ ''; '' @ solution ex"

definition not_str_x :: "string \<Rightarrow> ContactValidationException" where
  "not_str_x x =
     ContactValidationException (x @ '' value is not a string'')
       (''make sure '' @ x @ '' value is a string'')"

definition not_str_name :: ContactValidationException where
  "not_str_name = not_str_x ''name''"

definition not_str_phone :: ContactValidationException where
  "not_str_phone = not_str_x ''phone''"

definition not_str_email :: ContactValidationException where
  "not_str_email = not_str_x ''email''"

definition empty_x :: "string \<Rightarrow> ContactValidationException" where
  "empty_x x =
     ContactValidationException (x @ '' is empty'') (''please provide a non-empty '' @ x)"

definition empty_name :: ContactValidationException where
  "empty_name = empty_x ''name''"

definition empty_phone :: ContactValidationException where
  "empty_phone = empty_x ''phone''"

definition malformed_email :: ContactValidationException where
  "malformed_email =
     ContactValidationException ''email is malformed'' ''please provide a valid email''"

text \<open>
  A \<open>Contact\<close> object has the three attributes the constructor assigns. The attributes
  are dynamically typed, so the record keeps Python values.
\<close>

record Contact =
  name :: pyval
  phone :: pyval
  email :: pyval

text \<open>
  \<open>Contact.__init__\<close> (lines 50 to 72). A raise is the result \<open>Inl\<close>; the object is built
  only when no check raised. \<open>validate_email\<close> is the function of the third-party package
  of that name; it is a parameter of the model. Every \<open>len\<close> of the source stands behind
  the \<open>isinstance\<close> test of its argument, so \<open>the_str\<close> is only read on a \<open>str\<close>.
\<close>

definition Contact_init ::
  "(string \<Rightarrow> bool) \<Rightarrow> pyval \<Rightarrow> pyval \<Rightarrow> pyval \<Rightarrow> ContactValidationException + Contact"
where
  "Contact_init validate_email n p e =
    (if \<not> is_str n then Inl not_str_name
     else if \<not> is_str p then Inl not_str_phone
     else if \<not> is_str e \<and> e \<noteq> PyNone then Inl not_str_email
     else if length (the_str n) = 0 then Inl empty_name
     else if length (the_str p) = 0 then Inl empty_phone
     else if e \<noteq> PyNone \<and> length (the_str e) > 0 \<and> \<not> validate_email (the_str e)
       then Inl malformed_email
     else Inr \<lparr>name = n, phone = p, email = e\<rparr>)"

section \<open>The store\<close>

text \<open>
  The module keeps a dict \<open>contacts\<close> and a counter \<open>next_id\<close> (lines 81 and 82). A Python
  dict iterates in insertion order and holds a key once, so it is an association list:
  \<open>contacts[k] = v\<close> is \<open>AList.update\<close> (an existing key keeps its place, a new one goes
  last), \<open>contacts[k]\<close> and \<open>del contacts[k]\<close> raise \<open>KeyError\<close> on a key that is not there.
  \<open>AttributeError\<close> is what \<open>x.lower()\<close> raises on an object that is not a \<open>str\<close>.
  \<open>CsvError\<close> is the error of the \<open>csv\<close> module, raised by its reader. No handler of the
  program catches any of the three.
\<close>

datatype py_error = KeyError | AttributeError | CsvError

type_synonym contact_dict = "(int \<times> Contact) list"

record state =
  contacts :: contact_dict
  next_id :: int

definition init_state :: state where
  "init_state = \<lparr>contacts = [], next_id = 0\<rparr>"

definition dict_getitem :: "contact_dict \<Rightarrow> int \<Rightarrow> py_error + Contact" where
  "dict_getitem d k = (case map_of d k of None \<Rightarrow> Inl KeyError | Some v \<Rightarrow> Inr v)"

definition dict_delitem :: "contact_dict \<Rightarrow> int \<Rightarrow> py_error + contact_dict" where
  "dict_delitem d k =
     (if k \<in> set (map fst d) then Inr (AList.delete k d) else Inl KeyError)"

section \<open>Query\<close>

text \<open>
  \<open>query\<close> (lines 95 to 110). \<open>lower\<close> is \<open>str.lower\<close> of the interpreter, a parameter of
  the model; \<open>q in s\<close> on two strings is \<open>sublist q s\<close>. \<open>lower_attr\<close> is the method
  call \<open>x.lower()\<close> on an attribute. \<open>query_match\<close> is the \<open>if\<close>/\<open>elif\<close> chain of the loop
  body: it says whether the id is appended. The loop visits the entries of the dict in
  insertion order.
\<close>

definition lower_attr :: "(string \<Rightarrow> string) \<Rightarrow> pyval \<Rightarrow> py_error + string" where
  "lower_attr lower v = (case v of PyStr s \<Rightarrow> Inr (lower s) | _ \<Rightarrow> Inl AttributeError)"

definition query_match :: "(string \<Rightarrow> string) \<Rightarrow> string \<Rightarrow> Contact \<Rightarrow> py_error + bool" where
  "query_match lower q contact =
    (case lower_attr lower (name contact) of
       Inl ex \<Rightarrow> Inl ex
     | Inr n \<Rightarrow>
         if sublist q n then Inr True
         else (case lower_attr lower (phone contact) of
           Inl ex \<Rightarrow> Inl ex
         | Inr p \<Rightarrow>
             if sublist q p then Inr True
             else if email contact \<noteq> PyNone then
               (case lower_attr lower (email contact) of
                  Inl ex \<Rightarrow> Inl ex
                | Inr m \<Rightarrow> Inr (sublist q m))
             else Inr False))"

fun query_loop ::
  "(string \<Rightarrow> string) \<Rightarrow> string \<Rightarrow> contact_dict \<Rightarrow> int list \<Rightarrow> py_error + int list"
where
  "query_loop lower q [] ids = Inr ids"
| "query_loop lower q ((idd, contact) # rest) ids =
    (case query_match lower q contact of
       Inl ex \<Rightarrow> Inl ex
     | Inr hit \<Rightarrow> query_loop lower q rest (if hit then ids @ [idd] else ids))"

definition query :: "(string \<Rightarrow> string) \<Rightarrow> string \<Rightarrow> contact_dict \<Rightarrow> py_error + int list" where
  "query lower q d = query_loop lower (lower q) d []"

section \<open>Actions\<close>

text \<open>
  An action reads its prompts, changes the store and prints. The prompt answers are
  arguments of the model, the store is passed and returned, and \<open>printed\<close> says which
  message the action printed (with the values the message shows or depends on; the
  wording is not modelled). \<open>Listed ids\<close> stands for the call \<open>listt(ids)\<close>.
\<close>

datatype printed =
    Created
  | Error ContactValidationException
  | Listed "int list"
  | EmptyBook
  | NoMatches
  | EmptyQuery
  | Deleted
  | Cancelled
  | Exported
  | ExportedEmpty
  | Imported nat bool "(nat \<times> ContactValidationException) list"
  | FileNotFound
  | Bye

text \<open>\<open>action_create\<close> (lines 114 to 131); the three answers are \<open>n\<close>, \<open>p\<close>, \<open>e\<close>.\<close>

definition action_create ::
  "(string \<Rightarrow> bool) \<Rightarrow> pyval \<Rightarrow> pyval \<Rightarrow> pyval \<Rightarrow> state \<Rightarrow> printed \<times> state"
where
  "action_create validate_email n p e st =
    (case Contact_init validate_email n p e of
       Inr c \<Rightarrow>
         (Created,
          st\<lparr>contacts := AList.update (next_id st) c (contacts st),
             next_id := next_id st + 1\<rparr>)
     | Inl ex \<Rightarrow> (Error ex, st))"

text \<open>\<open>action_list\<close> (lines 135 to 140).\<close>

definition action_list :: "state \<Rightarrow> printed" where
  "action_list st =
    (if length (contacts st) = 0 then EmptyBook else Listed (map fst (contacts st)))"

text \<open>
  \<open>action_search\<close> (lines 144 to 156). The answer \<open>q\<close> of the prompt is a \<open>str\<close> or
  \<open>None\<close>.
\<close>

definition action_search ::
  "(string \<Rightarrow> string) \<Rightarrow> string option \<Rightarrow> state \<Rightarrow> py_error + printed"
where
  "action_search lower q st =
    (if q \<noteq> None \<and> length (the q) > 0 then
       (case query lower (the q) (contacts st) of
          Inl ex \<Rightarrow> Inl ex
        | Inr ids \<Rightarrow> if length ids > 0 then Inr (Listed ids) else Inr NoMatches)
     else Inr EmptyQuery)"

text \<open>
  \<open>action_delete\<close> (lines 161 to 195). \<open>chosen\<close> is the answer of the selection prompt,
  asked when the query matched more than one contact; \<open>y\<close> is the answer of the
  confirmation, where \<open>None\<close> counts as no.
\<close>

definition action_delete ::
  "(string \<Rightarrow> string) \<Rightarrow> string option \<Rightarrow> int \<Rightarrow> bool option \<Rightarrow> state
    \<Rightarrow> py_error + printed \<times> state"
where
  "action_delete lower q chosen y st =
    (if q \<noteq> None \<and> length (the q) > 0 then
       (case query lower (the q) (contacts st) of
          Inl ex \<Rightarrow> Inl ex
        | Inr ids \<Rightarrow>
            (let to_delete_id =
               (if length ids = 1 then Some (ids ! 0)
                else if length ids > 0 then Some chosen
                else None)
             in if to_delete_id \<noteq> None then
                  (if (case y of None \<Rightarrow> False | Some b \<Rightarrow> b) then
                     (case dict_delitem (contacts st) (the to_delete_id) of
                        Inl ex \<Rightarrow> Inl ex
                      | Inr d \<Rightarrow> Inr (Deleted, st\<lparr>contacts := d\<rparr>))
                   else Inr (Cancelled, st))
                else Inr (NoMatches, st)))
     else Inr (EmptyQuery, st))"

section \<open>Export and import\<close>

text \<open>
  The file \<open>contacts.csv\<close> is read and written through the \<open>csv\<close> module of the standard
  library. A value of \<open>csv_file\<close> is a list of rows, each a list of fields, a blank line
  being the empty row. For an import it is what \<open>csv.reader\<close> yields for the file at the
  path; for an export it is what the writer is handed. The two are not the same thing:
  the reader refuses a field longer than its limit, see \<open>read_back\<close> below. Quoting and
  line ends are the module's, and the characters of a string are taken to be ones the
  encoding of the file holds.
  The writer turns a field that is \<open>None\<close> into the empty field, writes a \<open>str\<close> as it
  is and any other object as \<open>str\<close> gives it.
\<close>

type_synonym csv_file = "string list list"

fun str_nat :: "nat \<Rightarrow> string" where
  "str_nat n =
     (if n < 10 then [char_of (48 + n)] else str_nat (n div 10) @ [char_of (48 + n mod 10)])"

definition str_int :: "int \<Rightarrow> string" where
  "str_int i = (if i < 0 then CHR ''-'' # str_nat (nat (- i)) else str_nat (nat i))"

definition csv_field :: "pyval \<Rightarrow> string" where
  "csv_field v = (case v of PyNone \<Rightarrow> [] | PyStr s \<Rightarrow> s | PyInt i \<Rightarrow> str_int i)"

text \<open>
  \<open>vars(contact)\<close> is the dict of the attributes; \<open>DictWriter\<close> lists its values in the
  order of \<open>fieldnames\<close>, with the empty string for a key that is not there.
\<close>

definition vars :: "Contact \<Rightarrow> (string \<times> pyval) list" where
  "vars c = [(''name'', name c), (''phone'', phone c), (''email'', email c)]"

definition dict_to_list :: "string list \<Rightarrow> (string \<times> pyval) list \<Rightarrow> pyval list" where
  "dict_to_list fieldnames rowdict =
     map (\<lambda>key. case map_of rowdict key of None \<Rightarrow> PyStr [] | Some v \<Rightarrow> v) fieldnames"

text \<open>
  \<open>action_export\<close> (lines 203 to 212): the header, then one row for each contact in
  insertion order. The result is the message and the rows handed to the writer.
\<close>

definition action_export :: "state \<Rightarrow> printed \<times> csv_file" where
  "action_export st =
    (let fieldnames = [''name'', ''phone'', ''email''] in
     (if length (contacts st) = 0 then ExportedEmpty else Exported,
      fieldnames #
      map (\<lambda>(idd, c). map csv_field (dict_to_list fieldnames (vars c))) (contacts st)))"

text \<open>
  \<open>DictReader\<close> takes the first row as the field names and skips the blank rows after
  it. A row becomes a dict: the names are paired with the fields in order, and a name
  past the end of a short row gets \<open>None\<close>; a later assignment to the same name wins.
  (Fields past the names go under the key \<open>None\<close>, which no lookup below reads.)
  \<open>row_get\<close> is \<open>row.get(key)\<close>, \<open>None\<close> for a key that is not there.
\<close>

definition row_dict :: "string list \<Rightarrow> string list \<Rightarrow> (string \<times> pyval) list" where
  "row_dict fieldnames row =
     rev (zip fieldnames (map PyStr row) @
          map (\<lambda>key. (key, PyNone)) (drop (length row) fieldnames))"

definition DictReader :: "csv_file \<Rightarrow> (string \<times> pyval) list list" where
  "DictReader rows =
     (case rows of
        [] \<Rightarrow> []
      | fieldnames # rest \<Rightarrow> map (row_dict fieldnames) (filter (\<lambda>row. row \<noteq> []) rest))"

definition row_get :: "(string \<times> pyval) list \<Rightarrow> string \<Rightarrow> pyval" where
  "row_get row key = (case map_of row key of None \<Rightarrow> PyNone | Some v \<Rightarrow> v)"

text \<open>
  \<open>action_import\<close> (lines 216 to 257). \<open>import_try\<close> is the body of the inner \<open>try\<close>
  (lines 233 to 239) up to the assignment of \<open>next_id\<close>: it raises or returns the store
  with the new contact. \<open>import_step\<close> is one turn of the loop on the variables \<open>count\<close>,
  \<open>any_row_error\<close> and the lines printed for the rows skipped (row number and error).
\<close>

definition import_try ::
  "(string \<Rightarrow> bool) \<Rightarrow> (string \<times> pyval) list \<Rightarrow> state \<Rightarrow> ContactValidationException + state"
where
  "import_try validate_email row st =
    (let n = row_get row ''name'';
         p = row_get row ''phone'';
         e = row_get row ''email''
     in if n = PyNone then Inl empty_name
        else if p = PyNone then Inl empty_phone
        else (case Contact_init validate_email n p e of
                Inl ex \<Rightarrow> Inl ex
              | Inr c \<Rightarrow>
                  Inr (st\<lparr>contacts := AList.update (next_id st) c (contacts st),
                         next_id := next_id st + 1\<rparr>)))"

type_synonym import_vars = "state \<times> nat \<times> bool \<times> (nat \<times> ContactValidationException) list"

definition import_step ::
  "(string \<Rightarrow> bool) \<Rightarrow> nat \<times> (string \<times> pyval) list \<Rightarrow> import_vars \<Rightarrow> import_vars"
where
  "import_step validate_email ir v =
    (case v of (st, count, any_row_error, errs) \<Rightarrow>
       (case import_try validate_email (snd ir) st of
          Inr st' \<Rightarrow> (st', count + 1, any_row_error, errs)
        | Inl ex \<Rightarrow> (st, count, True, errs @ [(fst ir, ex)])))"

fun import_loop ::
  "(string \<Rightarrow> bool) \<Rightarrow> (nat \<times> (string \<times> pyval) list) list \<Rightarrow> import_vars \<Rightarrow> import_vars"
where
  "import_loop validate_email [] v = v"
| "import_loop validate_email (ir # rest) v =
     import_loop validate_email rest (import_step validate_email ir v)"

text \<open>
  The argument \<open>file\<close> is what the reader yields for the file at the path when the
  action runs, and \<open>None\<close> when there is no file, where \<open>open\<close> raises
  \<open>FileNotFoundError\<close>. A file the reader refuses is not among these arguments; for the
  files the program itself writes, \<open>read_back\<close> below says which ones it refuses.
\<close>

definition action_import ::
  "(string \<Rightarrow> bool) \<Rightarrow> csv_file option \<Rightarrow> state \<Rightarrow> printed \<times> state"
where
  "action_import validate_email file st =
    (case file of
       None \<Rightarrow> (FileNotFound, st)
     | Some rows \<Rightarrow>
         (case import_loop validate_email (enumerate 0 (DictReader rows)) (st, 0, False, []) of
            (st', count, any_row_error, errs) \<Rightarrow> (Imported count any_row_error errs, st')))"

text \<open>
  Reading back a file the writer wrote. The reader (default dialect, both files opened
  with \<open>newline=""\<close>) yields the rows as they were written when no field is longer
  than \<open>csv.field_size_limit()\<close>, which is 131072 characters and which the program never
  changes. On a longer field it raises \<open>csv.Error\<close>. It raises when it comes to the row
  with that field, after the rows before it have been imported; \<open>action_import\<close> has no
  handler for the error and neither has the menu loop, so the process ends there, and
  the model gives the error as the result of the whole reading.
\<close>

definition field_size_limit :: nat where
  "field_size_limit = 131072"

definition read_back :: "csv_file \<Rightarrow> py_error + csv_file" where
  "read_back written =
     (if list_all (list_all (\<lambda>field. length field \<le> field_size_limit)) written
      then Inr written else Inl CsvError)"

text \<open>
  An export followed by an import of the file it wrote, with nothing else touching the
  file in between.
\<close>

definition export_then_import ::
  "(string \<Rightarrow> bool) \<Rightarrow> state \<Rightarrow> py_error + printed \<times> state"
where
  "export_then_import validate_email st =
    (case read_back (snd (action_export st)) of
       Inl ex \<Rightarrow> Inl ex
     | Inr rows \<Rightarrow> Inr (action_import validate_email (Some rows) st))"

section \<open>The main menu loop\<close>

text \<open>
  The loop (lines 274 to 294) runs the action the user picks until the choice is Exit.
  A menu choice carries the answers the action will read, and for an import the file
  found at the path. An exception no handler catches ends the process: the run is \<open>Inl\<close>.
  Interrupts from the keyboard are not modelled.
\<close>

datatype choice =
    MenuList
  | MenuSearch "string option"
  | MenuCreate pyval pyval pyval
  | MenuDelete "string option" int "bool option"
  | MenuExport
  | MenuImport "csv_file option"
  | MenuExit

fun step ::
  "(string \<Rightarrow> bool) \<Rightarrow> (string \<Rightarrow> string) \<Rightarrow> choice \<Rightarrow> state \<Rightarrow> py_error + printed \<times> state"
where
  "step validate_email lower MenuList st = Inr (action_list st, st)"
| "step validate_email lower (MenuSearch q) st =
     (case action_search lower q st of Inl ex \<Rightarrow> Inl ex | Inr out \<Rightarrow> Inr (out, st))"
| "step validate_email lower (MenuCreate n p e) st = Inr (action_create validate_email n p e st)"
| "step validate_email lower (MenuDelete q chosen y) st = action_delete lower q chosen y st"
| "step validate_email lower MenuExport st = Inr (fst (action_export st), st)"
| "step validate_email lower (MenuImport file) st = Inr (action_import validate_email file st)"
| "step validate_email lower MenuExit st = Inr (Bye, st)"

fun run ::
  "(string \<Rightarrow> bool) \<Rightarrow> (string \<Rightarrow> string) \<Rightarrow> choice list \<Rightarrow> state
    \<Rightarrow> py_error + printed list \<times> state"
where
  "run validate_email lower [] st = Inr ([], st)"
| "run validate_email lower (a # rest) st =
    (case step validate_email lower a st of
       Inl ex \<Rightarrow> Inl ex
     | Inr (out, st') \<Rightarrow>
         if a = MenuExit then Inr ([out], st')
         else (case run validate_email lower rest st' of
                 Inl ex \<Rightarrow> Inl ex
               | Inr (outs, st'') \<Rightarrow> Inr (out # outs, st'')))"

section \<open>What the specification says, as definitions\<close>

text \<open>
  The three kinds of failure of the specification and its order of checks. A value is
  not text when it is not a \<open>str\<close>; a field is empty when it is the empty \<open>str\<close>; an email
  is malformed when it is a non-empty \<open>str\<close> that the syntax check rejects.
\<close>

definition not_text :: "pyval \<Rightarrow> bool" where
  "not_text v = (case v of PyStr s \<Rightarrow> False | _ \<Rightarrow> True)"

definition empty_field :: "pyval \<Rightarrow> bool" where
  "empty_field v = (v = PyStr [])"

definition malformed :: "(string \<Rightarrow> bool) \<Rightarrow> pyval \<Rightarrow> bool" where
  "malformed validate_email v = (case v of PyStr s \<Rightarrow> s \<noteq> [] \<and> \<not> validate_email s | _ \<Rightarrow> False)"

definition checks_in_order ::
  "(string \<Rightarrow> bool) \<Rightarrow> pyval \<Rightarrow> pyval \<Rightarrow> pyval \<Rightarrow> (bool \<times> ContactValidationException) list"
where
  "checks_in_order validate_email n p e =
    [(not_text n, not_str_name),
     (not_text p, not_str_phone),
     (e \<noteq> PyNone \<and> not_text e, not_str_email),
     (empty_field n, empty_name),
     (empty_field p, empty_phone),
     (malformed validate_email e, malformed_email)]"

definition first_failure ::
  "(string \<Rightarrow> bool) \<Rightarrow> pyval \<Rightarrow> pyval \<Rightarrow> pyval \<Rightarrow> ContactValidationException option"
where
  "first_failure validate_email n p e =
     map_option snd (find fst (checks_in_order validate_email n p e))"

text \<open>The invariant of a contact record, and of the contacts of a store.\<close>

definition valid_contact :: "(string \<Rightarrow> bool) \<Rightarrow> Contact \<Rightarrow> bool" where
  "valid_contact validate_email c =
    ((case name c of PyStr s \<Rightarrow> s \<noteq> [] | _ \<Rightarrow> False) \<and>
     (case phone c of PyStr s \<Rightarrow> s \<noteq> [] | _ \<Rightarrow> False) \<and>
     (case email c of PyNone \<Rightarrow> True | PyStr s \<Rightarrow> s = [] \<or> validate_email s | _ \<Rightarrow> False))"

definition valid_contacts :: "(string \<Rightarrow> bool) \<Rightarrow> contact_dict \<Rightarrow> bool" where
  "valid_contacts validate_email d = list_all (\<lambda>(idd, c). valid_contact validate_email c) d"

text \<open>
  The identifiers of a store are in order when the counter is not negative, no key
  stands twice and every key is a number from 0 below the counter.
\<close>

definition ids_ok :: "state \<Rightarrow> bool" where
  "ids_ok st =
    (0 \<le> next_id st \<and> distinct (map fst (contacts st)) \<and>
     list_all (\<lambda>k. 0 \<le> k \<and> k < next_id st) (map fst (contacts st)))"

text \<open>
  A contact matches a query when the lower-cased query is a substring of its
  lower-cased name, phone or email, the email only when it is there.
\<close>

definition field_contains :: "(string \<Rightarrow> string) \<Rightarrow> string \<Rightarrow> pyval \<Rightarrow> bool" where
  "field_contains lower q v = (case v of PyStr s \<Rightarrow> sublist (lower q) (lower s) | _ \<Rightarrow> False)"

definition matches :: "(string \<Rightarrow> string) \<Rightarrow> string \<Rightarrow> Contact \<Rightarrow> bool" where
  "matches lower q c =
    (field_contains lower q (name c) \<or> field_contains lower q (phone c) \<or>
     field_contains lower q (email c))"

text \<open>The number of contacts a printed message reports as created.\<close>

definition created_of :: "printed \<Rightarrow> nat" where
  "created_of out = (case out of Created \<Rightarrow> 1 | Imported count _ _ \<Rightarrow> count | _ \<Rightarrow> 0)"

text \<open>
  The outcome of one row of an import, from the row alone: the error it is skipped
  with, or the contact it adds.
\<close>

definition row_result ::
  "(string \<Rightarrow> bool) \<Rightarrow> (string \<times> pyval) list \<Rightarrow> ContactValidationException + Contact"
where
  "row_result validate_email row =
    (if row_get row ''name'' = PyNone then Inl empty_name
     else if row_get row ''phone'' = PyNone then Inl empty_phone
     else Contact_init validate_email (row_get row ''name'') (row_get row ''phone'')
            (row_get row ''email''))"

definition row_errors ::
  "(string \<Rightarrow> bool) \<Rightarrow> (string \<times> pyval) list list \<Rightarrow> (nat \<times> ContactValidationException) list"
where
  "row_errors validate_email rows =
     concat (map (\<lambda>(i, row). case row_result validate_email row of
                                Inl ex \<Rightarrow> [(i, ex)] | Inr c \<Rightarrow> [])
                 (enumerate 0 rows))"

definition row_contacts ::
  "(string \<Rightarrow> bool) \<Rightarrow> (string \<times> pyval) list list \<Rightarrow> Contact list"
where
  "row_contacts validate_email rows =
     concat (map (\<lambda>row. case row_result validate_email row of
                           Inl ex \<Rightarrow> [] | Inr c \<Rightarrow> [c])
                 rows)"

text \<open>
  New contacts \<open>cs\<close> stored one after the other from the counter on: the entries a store
  gains, and the keys they get.
\<close>

primrec number_from :: "int \<Rightarrow> Contact list \<Rightarrow> contact_dict" where
  "number_from k [] = []"
| "number_from k (c # cs) = (k, c) # number_from (k + 1) cs"

definition fresh_entries :: "state \<Rightarrow> Contact list \<Rightarrow> contact_dict" where
  "fresh_entries st cs = number_from (next_id st) cs"

text \<open>
  What a contact is after a trip through the file: the CSV has no way to write \<open>None\<close>,
  an email that is \<open>None\<close> is read back as the empty string.
\<close>

definition through_csv :: "Contact \<Rightarrow> Contact" where
  "through_csv c = c\<lparr>email := (if email c = PyNone then PyStr [] else email c)\<rparr>"

text \<open>
  The round trip of the specification, with fields that come back equal: the store
  after exporting and importing the file again holds the old entries and then the same
  contacts once more, under new keys.
\<close>

definition roundtrip_equal :: "(string \<Rightarrow> bool) \<Rightarrow> state \<Rightarrow> bool" where
  "roundtrip_equal validate_email st =
    (case export_then_import validate_email st of
       Inl ex \<Rightarrow> False
     | Inr (out, st') \<Rightarrow>
         contacts st' = contacts st @ fresh_entries st (map snd (contacts st)))"

text \<open>
  The contacts whose three fields, as the writer writes them, are each within the
  limit of the reader.
\<close>

definition within_limit :: "Contact \<Rightarrow> bool" where
  "within_limit c =
     list_all (\<lambda>v. length (csv_field v) \<le> field_size_limit) [name c, phone c, email c]"

definition fields_within_limit :: "contact_dict \<Rightarrow> bool" where
  "fields_within_limit d = list_all (\<lambda>(idd, c). within_limit c) d"

text \<open>
  What one action may do to a store: the contacts stay valid and the identifiers in
  order, the counter grows by the number of contacts the message reports, and a key
  below the old counter keeps its contact or is gone.
\<close>

definition effect_ok :: "(string \<Rightarrow> bool) \<Rightarrow> state \<Rightarrow> printed \<Rightarrow> state \<Rightarrow> bool" where
  "effect_ok ve st out st' =
    (valid_contacts ve (contacts st') \<and> ids_ok st' \<and>
     next_id st' = next_id st + int (created_of out) \<and>
     (\<forall>k. k < next_id st \<longrightarrow>
        map_of (contacts st') k = None \<or> map_of (contacts st') k = map_of (contacts st) k))"

section \<open>Library functions for the examples\<close>

text \<open>
  The examples need a \<open>str.lower\<close> and a \<open>validate_email\<close> that compute. \<open>ascii_lower\<close>
  lowers the letters A to Z; \<open>at_and_dot\<close> accepts a string with an at sign and a dot.
  The theorems hold for every function in their place.
\<close>

definition ascii_lower :: "string \<Rightarrow> string" where
  "ascii_lower s =
     map (\<lambda>c. if 65 \<le> (of_char c :: nat) \<and> (of_char c :: nat) \<le> 90
               then char_of ((of_char c :: nat) + 32) else c) s"

definition at_and_dot :: "string \<Rightarrow> bool" where
  "at_and_dot s = (CHR ''@'' \<in> set s \<and> CHR ''.'' \<in> set s)"

section \<open>Lemmas about the model\<close>

lemma Contact_init_valid:
  "Contact_init ve n p e = Inr c \<Longrightarrow> valid_contact ve c"
  by (cases n; cases p; cases e)
     (auto simp: Contact_init_def valid_contact_def split: if_splits)

lemma query_match_valid:
  "valid_contact ve c \<Longrightarrow> query_match lower (lower q) c = Inr (matches lower q c)"
  by (cases "name c"; cases "phone c"; cases "email c")
     (auto simp: query_match_def matches_def field_contains_def lower_attr_def valid_contact_def)

lemma query_loop_valid:
  "valid_contacts ve d \<Longrightarrow>
   query_loop lower (lower q) d ids =
     Inr (ids @ map fst (filter (\<lambda>(idd, c). matches lower q c) d))"
proof (induction d arbitrary: ids)
  case Nil
  then show ?case by simp
next
  case (Cons a d)
  obtain idd c where a: "a = (idd, c)" by (cases a)
  from Cons.prems have v: "valid_contact ve c" and vd: "valid_contacts ve d"
    by (simp_all add: valid_contacts_def a)
  show ?case
    by (simp add: a query_match_valid [OF v] Cons.IH [OF vd])
qed

lemma update_fresh:
  "k \<notin> set (map fst d) \<Longrightarrow> AList.update k v d = d @ [(k, v)]"
  by (induction d) auto

lemma import_try_row_result:
  "import_try ve row st =
    (case row_result ve row of
       Inl ex \<Rightarrow> Inl ex
     | Inr c \<Rightarrow> Inr (st\<lparr>contacts := AList.update (next_id st) c (contacts st),
                       next_id := next_id st + 1\<rparr>))"
  by (simp add: import_try_def row_result_def Let_def)

lemma number_from_keys:
  "k' \<in> set (map fst (number_from k cs)) \<longleftrightarrow> k \<le> k' \<and> k' < k + int (length cs)"
  by (induction cs arbitrary: k) auto

lemma number_from_distinct: "distinct (map fst (number_from k cs))"
  by (induction cs arbitrary: k) (auto simp: number_from_keys simp del: set_map)

lemma import_loop_char:
  "list_all (\<lambda>k. k < next_id st) (map fst (contacts st)) \<Longrightarrow>
   import_loop ve (enumerate i rows) (st, count, any_row_error, errs) =
     (st\<lparr>contacts := contacts st @ number_from (next_id st) (row_contacts ve rows),
         next_id := next_id st + int (length (row_contacts ve rows))\<rparr>,
      count + length (row_contacts ve rows),
      any_row_error \<or> list_ex (\<lambda>row. isl (row_result ve row)) rows,
      errs @ concat (map (\<lambda>(i, row). case row_result ve row of
                                          Inl ex \<Rightarrow> [(i, ex)] | Inr c \<Rightarrow> [])
                         (enumerate i rows)))"
proof (induction rows arbitrary: i st count any_row_error errs)
  case Nil
  then show ?case by (simp add: row_contacts_def)
next
  case (Cons row rows)
  show ?case
  proof (cases "row_result ve row")
    case (Inl ex)
    then have "import_step ve (i, row) (st, count, any_row_error, errs) =
        (st, count, True, errs @ [(i, ex)])"
      by (simp add: import_step_def import_try_row_result)
    then show ?thesis
      using Cons.IH [OF Cons.prems, of "Suc i" count True "errs @ [(i, ex)]"] Inl
      by (simp add: row_contacts_def)
  next
    case (Inr c)
    define st1 where "st1 = st\<lparr>contacts := contacts st @ [(next_id st, c)],
                                next_id := next_id st + 1\<rparr>"
    have fresh: "next_id st \<notin> set (map fst (contacts st))"
      using Cons.prems by (auto simp: list_all_iff)
    have step: "import_step ve (i, row) (st, count, any_row_error, errs) =
        (st1, count + 1, any_row_error, errs)"
      using Inr fresh
      by (simp add: import_step_def import_try_row_result update_fresh st1_def del: set_map)
    have pre: "list_all (\<lambda>k. k < next_id st1) (map fst (contacts st1))"
      using Cons.prems by (auto simp: list_all_iff st1_def)
    show ?thesis
      using Cons.IH [OF pre, of "Suc i" "count + 1" any_row_error errs] Inr step
      by (simp add: row_contacts_def st1_def)
  qed
qed

lemma action_import_char:
  assumes "list_all (\<lambda>k. k < next_id st) (map fst (contacts st))"
  shows "action_import ve (Some rows) st =
     (Imported (length (row_contacts ve (DictReader rows)))
        (list_ex (\<lambda>row. isl (row_result ve row)) (DictReader rows))
        (row_errors ve (DictReader rows)),
      st\<lparr>contacts := contacts st @ fresh_entries st (row_contacts ve (DictReader rows)),
         next_id := next_id st + int (length (row_contacts ve (DictReader rows)))\<rparr>)"
  by (simp add: action_import_def import_loop_char [OF assms] row_errors_def fresh_entries_def)

lemma row_result_valid: "row_result ve row = Inr c \<Longrightarrow> valid_contact ve c"
  by (auto simp: row_result_def split: if_splits dest: Contact_init_valid)

lemma row_contacts_valid: "list_all (valid_contact ve) (row_contacts ve rows)"
  by (induction rows) (auto simp: row_contacts_def row_result_valid split: sum.splits)

lemma valid_contacts_append:
  "valid_contacts ve (d @ d') \<longleftrightarrow> valid_contacts ve d \<and> valid_contacts ve d'"
  by (simp add: valid_contacts_def)

lemma valid_contacts_number_from:
  "list_all (valid_contact ve) cs \<Longrightarrow> valid_contacts ve (number_from k cs)"
  by (induction cs arbitrary: k) (auto simp: valid_contacts_def)

lemma ids_ok_append:
  assumes "ids_ok st"
  shows "ids_ok (st\<lparr>contacts := contacts st @ number_from (next_id st) cs,
                   next_id := next_id st + int (length cs)\<rparr>)"
proof -
  have d: "distinct (map fst (contacts st))"
    and b: "\<And>k. k \<in> set (map fst (contacts st)) \<Longrightarrow> 0 \<le> k \<and> k < next_id st"
    and n: "0 \<le> next_id st"
    using assms by (auto simp: ids_ok_def list_all_iff)
  have disj: "set (map fst (contacts st)) \<inter> set (map fst (number_from (next_id st) cs)) = {}"
    using b by (fastforce simp: number_from_keys simp del: set_map)
  have bound: "\<And>k. k \<in> set (map fst (number_from (next_id st) cs)) \<Longrightarrow>
      0 \<le> k \<and> k < next_id st + int (length cs)"
    using n by (simp add: number_from_keys del: set_map)
  show ?thesis
    unfolding ids_ok_def list_all_iff
    using d n disj b bound number_from_distinct [of "next_id st" cs]
    by (fastforce simp del: set_map)
qed

lemma map_of_append_fresh:
  assumes "k < n"
  shows "map_of (d @ number_from n cs) k = map_of d k"
proof -
  have "k \<notin> set (map fst (number_from n cs))"
    using assms by (simp add: number_from_keys del: set_map)
  then have "map_of (number_from n cs) k = None"
    by (simp add: map_of_eq_None_iff)
  then show ?thesis
    by (simp add: map_add_def split: option.splits)
qed

lemma valid_contacts_delete:
  "valid_contacts ve d \<Longrightarrow> valid_contacts ve (AList.delete k d)"
  by (simp add: valid_contacts_def AList.delete_eq list_all_iff)

lemma ids_ok_delete:
  "ids_ok st \<Longrightarrow> ids_ok (st\<lparr>contacts := AList.delete k (contacts st)\<rparr>)"
  by (auto simp: ids_ok_def list_all_iff delete_keys distinct_removeAll simp del: set_map)

lemma ids_ok_fresh: "ids_ok st \<Longrightarrow> list_all (\<lambda>k. k < next_id st) (map fst (contacts st))"
  by (auto simp: ids_ok_def list_all_iff)

lemma effect_ok_same:
  "valid_contacts ve (contacts st) \<Longrightarrow> ids_ok st \<Longrightarrow> created_of out = 0 \<Longrightarrow>
   effect_ok ve st out st"
  by (simp add: effect_ok_def)

lemma effect_ok_added:
  assumes "valid_contacts ve (contacts st)" and "ids_ok st"
    and "list_all (valid_contact ve) cs" and "created_of out = length cs"
  shows "effect_ok ve st out
           (st\<lparr>contacts := contacts st @ number_from (next_id st) cs,
               next_id := next_id st + int (length cs)\<rparr>)"
  using assms ids_ok_append [OF assms(2), of cs]
  by (simp add: effect_ok_def valid_contacts_append valid_contacts_number_from
      map_of_append_fresh del: map_of_append)

lemma effect_ok_deleted:
  assumes "valid_contacts ve (contacts st)" and "ids_ok st" and "created_of out = 0"
  shows "effect_ok ve st out (st\<lparr>contacts := AList.delete k (contacts st)\<rparr>)"
  using assms
  by (simp add: effect_ok_def valid_contacts_delete ids_ok_delete delete_conv')

lemma action_create_effect:
  assumes "valid_contacts ve (contacts st)" and "ids_ok st"
    and "action_create ve n p e st = (out, st')"
  shows "effect_ok ve st out st'"
proof (cases "Contact_init ve n p e")
  case (Inl ex)
  with assms(3) have "out = Error ex" "st' = st"
    by (simp_all add: action_create_def)
  then show ?thesis
    using effect_ok_same [OF assms(1,2), of out] by (simp add: created_of_def)
next
  case (Inr c)
  have fresh: "next_id st \<notin> set (map fst (contacts st))"
    using ids_ok_fresh [OF assms(2)] by (auto simp: list_all_iff)
  from Inr assms(3) fresh have out: "out = Created"
    and st': "st' = st\<lparr>contacts := contacts st @ number_from (next_id st) [c],
                        next_id := next_id st + int (length [c])\<rparr>"
    by (auto simp: action_create_def update_fresh simp del: set_map)
  have "list_all (valid_contact ve) [c]"
    using Contact_init_valid [OF Inr] by simp
  from effect_ok_added [OF assms(1,2) this, of out] show ?thesis
    unfolding st' by (simp add: out created_of_def)
qed

lemma action_delete_effect:
  assumes "valid_contacts ve (contacts st)" and "ids_ok st"
    and "action_delete lower q chosen y st = Inr (out, st')"
  shows "effect_ok ve st out st'"
proof -
  from assms(3) consider
      "st' = st" "created_of out = 0"
    | k where "st' = st\<lparr>contacts := AList.delete k (contacts st)\<rparr>" "created_of out = 0"
    by (auto simp: action_delete_def dict_delitem_def created_of_def Let_def
        split: if_splits sum.splits option.splits)
  then show ?thesis
  proof cases
    case 1
    then show ?thesis using effect_ok_same [OF assms(1,2)] by simp
  next
    case 2
    then show ?thesis using effect_ok_deleted [OF assms(1,2)] by simp
  qed
qed

lemma action_import_effect:
  assumes "valid_contacts ve (contacts st)" and "ids_ok st"
    and "action_import ve file st = (out, st')"
  shows "effect_ok ve st out st'"
proof (cases "file")
  case None
  with assms(3) have "out = FileNotFound" "st' = st"
    by (simp_all add: action_import_def)
  then show ?thesis
    using effect_ok_same [OF assms(1,2), of out] by (simp add: created_of_def)
next
  case (Some rows)
  from assms(3) show ?thesis
    unfolding Some action_import_char [OF ids_ok_fresh [OF assms(2)]] fresh_entries_def
    using effect_ok_added [OF assms(1,2) row_contacts_valid [of ve "DictReader rows"], of out]
    by (auto simp: created_of_def)
qed

lemma step_effect:
  assumes "valid_contacts ve (contacts st)" and "ids_ok st"
    and "step ve lower a st = Inr (out, st')"
  shows "effect_ok ve st out st'"
proof (cases a)
  case MenuList
  with assms(3) show ?thesis
    using effect_ok_same [OF assms(1,2), of out]
    by (auto simp: action_list_def created_of_def split: if_splits)
next
  case (MenuSearch q)
  with assms(3) show ?thesis
    using effect_ok_same [OF assms(1,2), of out]
    by (auto simp: action_search_def created_of_def split: if_splits sum.splits)
next
  case (MenuCreate n p e)
  with assms(3) show ?thesis
    using action_create_effect [OF assms(1,2)] by simp
next
  case (MenuDelete q chosen y)
  with assms(3) show ?thesis
    using action_delete_effect [OF assms(1,2)] by simp
next
  case MenuExport
  with assms(3) show ?thesis
    using effect_ok_same [OF assms(1,2), of out]
    by (auto simp: action_export_def created_of_def Let_def split: if_splits)
next
  case (MenuImport f)
  with assms(3) show ?thesis
    using action_import_effect [OF assms(1,2)] by simp
next
  case MenuExit
  with assms(3) show ?thesis
    using effect_ok_same [OF assms(1,2), of out] by (auto simp: created_of_def)
qed

lemma run_effect:
  assumes "valid_contacts ve (contacts st)" and "ids_ok st"
    and "run ve lower acts st = Inr (outs, st')"
  shows "valid_contacts ve (contacts st') \<and> ids_ok st' \<and>
     next_id st' = next_id st + int (sum_list (map created_of outs)) \<and>
     (\<forall>k. k < next_id st \<longrightarrow>
        map_of (contacts st') k = None \<or> map_of (contacts st') k = map_of (contacts st) k)"
  using assms
proof (induction acts arbitrary: st outs)
  case Nil
  then show ?case by simp
next
  case (Cons a acts)
  from Cons.prems(3) obtain out st1 where s: "step ve lower a st = Inr (out, st1)"
    by (auto split: sum.splits)
  have e: "effect_ok ve st out st1"
    by (rule step_effect [OF Cons.prems(1,2) s])
  show ?case
  proof (cases "a = MenuExit")
    case True
    with Cons.prems(3) s have "outs = [out]" "st' = st1" by simp_all
    with e show ?thesis by (simp add: effect_ok_def)
  next
    case False
    with Cons.prems(3) s obtain outs1 where r: "run ve lower acts st1 = Inr (outs1, st')"
      and o: "outs = out # outs1"
      by (auto split: sum.splits)
    from e have v1: "valid_contacts ve (contacts st1)" and i1: "ids_ok st1"
      by (simp_all add: effect_ok_def)
    note ih = Cons.IH [OF v1 i1 r]
    have le: "next_id st \<le> next_id st1" using e by (simp add: effect_ok_def)
    have keep: "map_of (contacts st') k = None \<or> map_of (contacts st') k = map_of (contacts st) k"
      if "k < next_id st" for k
    proof -
      from that le have "k < next_id st1" by simp
      with ih have "map_of (contacts st') k = None \<or> map_of (contacts st') k = map_of (contacts st1) k"
        by blast
      moreover from e that
      have "map_of (contacts st1) k = None \<or> map_of (contacts st1) k = map_of (contacts st) k"
        by (simp add: effect_ok_def)
      ultimately show ?thesis by auto
    qed
    from ih e keep show ?thesis by (simp add: o effect_ok_def)
  qed
qed

text \<open>The keys of new entries, and the rows of an exported file.\<close>

lemma number_from_fst:
  "map fst (number_from k cs) = map (\<lambda>i. k + int i) [0..<length cs]"
proof (induction cs arbitrary: k)
  case Nil
  then show ?case by simp
next
  case (Cons c cs)
  have "[0..<length (c # cs)] = 0 # map Suc [0..<length cs]"
    by (simp add: upt_conv_Cons map_Suc_upt del: upt_Suc)
  then show ?case
    by (simp add: Cons.IH comp_def add.assoc del: upt_Suc)
qed

lemma row_errors_none:
  "list_all (\<lambda>row. \<not> isl (row_result ve row)) rows \<Longrightarrow>
   concat (map (\<lambda>(i, row). case row_result ve row of Inl ex \<Rightarrow> [(i, ex)] | Inr c \<Rightarrow> [])
               (enumerate i rows)) = []"
  by (induction rows arbitrary: i) (auto split: sum.splits)

lemma row_result_exported:
  assumes "valid_contact ve c"
  shows "row_result ve (row_dict [''name'', ''phone'', ''email'']
           (map csv_field (dict_to_list [''name'', ''phone'', ''email''] (vars c)))) =
         Inr (through_csv c)"
  using assms
  by (cases "name c"; cases "phone c"; cases "email c")
     (auto simp: row_result_def row_dict_def row_get_def dict_to_list_def vars_def csv_field_def
        valid_contact_def Contact_init_def through_csv_def)

lemma DictReader_exported:
  "DictReader (snd (action_export st)) =
     map (\<lambda>(idd, c). row_dict [''name'', ''phone'', ''email'']
            (map csv_field (dict_to_list [''name'', ''phone'', ''email''] (vars c))))
         (contacts st)"
proof -
  have "filter (\<lambda>row. row \<noteq> [])
      (map (\<lambda>(idd, c). map csv_field (dict_to_list [''name'', ''phone'', ''email''] (vars c))) d) =
      map (\<lambda>(idd, c). map csv_field (dict_to_list [''name'', ''phone'', ''email''] (vars c))) d"
    for d :: contact_dict
    by (induction d) (auto simp: dict_to_list_def)
  then show ?thesis
    by (simp add: DictReader_def action_export_def Let_def split_def comp_def)
qed

lemma exported_rows:
  assumes "valid_contacts ve d"
  shows "row_contacts ve
      (map (\<lambda>(idd, c). row_dict [''name'', ''phone'', ''email'']
            (map csv_field (dict_to_list [''name'', ''phone'', ''email''] (vars c)))) d) =
      map (through_csv \<circ> snd) d \<and>
    list_all (\<lambda>row. \<not> isl (row_result ve row))
      (map (\<lambda>(idd, c). row_dict [''name'', ''phone'', ''email'']
            (map csv_field (dict_to_list [''name'', ''phone'', ''email''] (vars c)))) d)"
  using assms
proof (induction d)
  case Nil
  then show ?case by (simp add: row_contacts_def)
next
  case (Cons a d)
  obtain idd c where a: "a = (idd, c)" by (cases a)
  from Cons.prems have v: "valid_contact ve c" and vd: "valid_contacts ve d"
    by (simp_all add: valid_contacts_def a)
  from Cons.IH [OF vd] row_result_exported [OF v] show ?case
    by (simp add: a row_contacts_def)
qed

text \<open>
  Reading back an exported file: the reader accepts it exactly when the fields of all
  contacts are within its limit, and the rows it then yields give every contact back,
  an email \<open>None\<close> as the empty string.
\<close>

lemma import_of_exported_rows:
  assumes "valid_contacts ve (contacts st)" and "ids_ok st"
  shows "action_import ve (Some (snd (action_export st))) st =
      (Imported (length (contacts st)) False [],
       st\<lparr>contacts := contacts st @ fresh_entries st (map (through_csv \<circ> snd) (contacts st)),
          next_id := next_id st + int (length (contacts st))\<rparr>)"
proof -
  let ?rs = "DictReader (snd (action_export st))"
  from exported_rows [OF assms(1)]
  have cs: "row_contacts ve ?rs = map (through_csv \<circ> snd) (contacts st)"
    and ok: "list_all (\<lambda>row. \<not> isl (row_result ve row)) ?rs"
    unfolding DictReader_exported by simp_all
  from ok have no: "\<not> list_ex (\<lambda>row. isl (row_result ve row)) ?rs"
    by (simp add: list_all_iff list_ex_iff)
  have errs: "row_errors ve ?rs = []"
    unfolding row_errors_def by (rule row_errors_none [OF ok])
  show ?thesis
    unfolding action_import_char [OF ids_ok_fresh [OF assms(2)]] cs
    using no errs by (simp add: cs)
qed

lemma read_back_exported:
  "read_back (snd (action_export st)) =
     (if fields_within_limit (contacts st) then Inr (snd (action_export st)) else Inl CsvError)"
proof -
  have "list_all (list_all (\<lambda>field. length field \<le> field_size_limit))
      (map (\<lambda>(idd, c). map csv_field (dict_to_list [''name'', ''phone'', ''email''] (vars c))) d) =
      fields_within_limit d" for d :: contact_dict
    by (induction d)
       (auto simp: fields_within_limit_def within_limit_def dict_to_list_def vars_def)
  then show ?thesis
    by (simp add: read_back_def action_export_def Let_def field_size_limit_def)
qed

lemma oversize_field_refused:
  "\<not> fields_within_limit (contacts st) \<Longrightarrow> export_then_import ve st = Inl CsvError"
  by (simp add: export_then_import_def read_back_exported)

text \<open>
  A name of 131073 characters passes the constructor, which puts no bound on it. The
  store \<open>action_create\<close> makes with it cannot be imported again from its own export.
\<close>

lemma oversize_name_refused:
  "export_then_import at_and_dot
     (snd (action_create at_and_dot (PyStr (replicate 131073 CHR ''a'')) (PyStr ''1'') PyNone
        init_state)) =
   Inl CsvError"
proof -
  have c: "Contact_init at_and_dot (PyStr (replicate 131073 CHR ''a'')) (PyStr ''1'') PyNone =
    Inr \<lparr>name = PyStr (replicate 131073 CHR ''a''), phone = PyStr ''1'', email = PyNone\<rparr>"
    by (simp add: Contact_init_def)
  show ?thesis
    by (rule oversize_field_refused)
       (simp add: action_create_def c init_state_def fields_within_limit_def within_limit_def
          csv_field_def field_size_limit_def)
qed

section \<open>Construction of a contact\<close>

text \<open>
  C1. The constructor makes its checks in the order type of name, type of phone, type
  of email, name empty, phone empty, syntax of email: its result is the error of the
  first check of \<open>checks_in_order\<close> that fails, and the contact with the three values
  as given when none fails. It is one result, so one error at most; the six errors are
  six different values, so the error tells which check failed.
\<close>

theorem checks_first_failure_wins:
  "Contact_init validate_email n p e =
     (case first_failure validate_email n p e of
        Some ex \<Rightarrow> Inl ex
      | None \<Rightarrow> Inr \<lparr>name = n, phone = p, email = e\<rparr>) \<and>
   distinct (map snd (checks_in_order validate_email n p e))"
proof
  show "Contact_init validate_email n p e =
     (case first_failure validate_email n p e of
        Some ex \<Rightarrow> Inl ex
      | None \<Rightarrow> Inr \<lparr>name = n, phone = p, email = e\<rparr>)"
    by (cases n; cases p; cases e)
       (simp_all add: Contact_init_def first_failure_def checks_in_order_def not_text_def
          empty_field_def malformed_def)
  show "distinct (map snd (checks_in_order validate_email n p e))"
    by (simp add: checks_in_order_def not_str_name_def not_str_phone_def not_str_email_def
        empty_name_def empty_phone_def malformed_email_def not_str_x_def empty_x_def)
qed

text \<open>
  Four triples: a name that is not a string beats an empty phone and a bad email, an
  empty name beats an empty phone and a bad email, an empty phone beats a bad email, and
  the bad email is reported when it is the only violation.
\<close>

theorem checks_first_failure_wins_witness:
  "Contact_init at_and_dot (PyInt 3) (PyStr []) (PyStr ''x'') = Inl not_str_name \<and>
   Contact_init at_and_dot (PyStr []) (PyStr []) (PyStr ''x'') = Inl empty_name \<and>
   Contact_init at_and_dot (PyStr ''a'') (PyStr []) (PyStr ''x'') = Inl empty_phone \<and>
   Contact_init at_and_dot (PyStr ''a'') (PyStr ''1'') (PyStr ''x'') = Inl malformed_email"
  using checks_first_failure_wins [of at_and_dot "PyInt 3" "PyStr []" "PyStr ''x''"]
    checks_first_failure_wins [of at_and_dot "PyStr []" "PyStr []" "PyStr ''x''"]
    checks_first_failure_wins [of at_and_dot "PyStr ''a''" "PyStr []" "PyStr ''x''"]
    checks_first_failure_wins [of at_and_dot "PyStr ''a''" "PyStr ''1''" "PyStr ''x''"]
  by (simp add: first_failure_def checks_in_order_def not_text_def empty_field_def
      malformed_def at_and_dot_def)

text \<open>
  C10. The constructor stores the three values as they are given. In particular, with
  a name and a phone that pass, an email \<open>None\<close> is stored as \<open>None\<close> and an empty email
  as the empty string, and the two contacts differ.
\<close>

theorem email_stored_verbatim:
  "(Contact_init validate_email n p e = Inr c \<longrightarrow> name c = n \<and> phone c = p \<and> email c = e) \<and>
   (s \<noteq> [] \<and> t \<noteq> [] \<longrightarrow>
      Contact_init validate_email (PyStr s) (PyStr t) PyNone =
        Inr \<lparr>name = PyStr s, phone = PyStr t, email = PyNone\<rparr> \<and>
      Contact_init validate_email (PyStr s) (PyStr t) (PyStr []) =
        Inr \<lparr>name = PyStr s, phone = PyStr t, email = PyStr []\<rparr> \<and>
      Contact_init validate_email (PyStr s) (PyStr t) PyNone \<noteq>
        Contact_init validate_email (PyStr s) (PyStr t) (PyStr []))"
  by (auto simp: Contact_init_def split: if_splits)

theorem email_stored_verbatim_witness:
  "email \<lparr>name = PyStr ''Ann'', phone = PyStr ''1'', email = PyNone\<rparr> = PyNone \<and>
   Contact_init at_and_dot (PyStr ''Ann'') (PyStr ''1'') PyNone =
     Inr \<lparr>name = PyStr ''Ann'', phone = PyStr ''1'', email = PyNone\<rparr> \<and>
   Contact_init at_and_dot (PyStr ''Ann'') (PyStr ''1'') (PyStr []) =
     Inr \<lparr>name = PyStr ''Ann'', phone = PyStr ''1'', email = PyStr []\<rparr>"
  using email_stored_verbatim [of at_and_dot "PyStr ''Ann''" "PyStr ''1''" PyNone
      "\<lparr>name = PyStr ''Ann'', phone = PyStr ''1'', email = PyNone\<rparr>" "''Ann''" "''1''"]
  by simp

section \<open>A failed validation changes nothing\<close>

text \<open>
  C5. When the constructor raises, \<open>action_create\<close> prints the error and returns the
  store as it was, the dict and the counter. The same holds for a row of an import: when
  the body of the \<open>try\<close> raises, the turn of the loop leaves the store and the count,
  sets the flag and logs the error with the number of the row.
\<close>

theorem failed_validation_no_mutation:
  "(Contact_init validate_email n p e = Inl ex \<longrightarrow>
      action_create validate_email n p e st = (Error ex, st)) \<and>
   (import_try validate_email row st = Inl ex' \<longrightarrow>
      import_step validate_email (row_i, row) (st, count, any_row_error, errs) =
        (st, count, True, errs @ [(row_i, ex')]))"
  by (simp add: action_create_def import_step_def)

text \<open>An empty name at the prompt, and the row \<open>Ann,,x@y.com\<close> of a file.\<close>

theorem failed_validation_no_mutation_witness:
  "action_create at_and_dot (PyStr []) (PyStr ''555'') PyNone init_state =
     (Error empty_name, init_state) \<and>
   import_step at_and_dot (0, row_dict [''name'', ''phone'', ''email''] [''Ann'', [], ''x@y.com''])
       (init_state, 0, False, []) =
     (init_state, 0, True, [(0, empty_phone)])"
proof -
  have a: "Contact_init at_and_dot (PyStr []) (PyStr ''555'') PyNone = Inl empty_name"
    by (simp add: Contact_init_def)
  have b: "import_try at_and_dot (row_dict [''name'', ''phone'', ''email''] [''Ann'', [], ''x@y.com''])
      init_state = Inl empty_phone"
    by (simp add: import_try_def row_dict_def row_get_def Contact_init_def)
  show ?thesis
    using failed_validation_no_mutation [of at_and_dot "PyStr []" "PyStr ''555''" PyNone
        empty_name init_state "row_dict [''name'', ''phone'', ''email''] [''Ann'', [], ''x@y.com'']"
        empty_phone 0 0 False "[]"] a b
    by simp
qed

section \<open>Search\<close>

text \<open>
  C3. On a store whose contacts are valid, \<open>query\<close> raises nothing and returns the keys
  of the contacts that match, and of no other, in the insertion order of the store: a
  contact matches when the lower-cased query is a substring of its lower-cased name, of
  its lower-cased phone, or of its lower-cased email when the email is a string. This
  holds for every query string, the non-empty ones among them.
\<close>

theorem query_returns_matches:
  assumes "valid_contacts validate_email d"
  shows "query lower q d = Inr (map fst (filter (\<lambda>(idd, c). matches lower q c) d))"
  using query_loop_valid [OF assms, of lower q "[]"] by (simp add: query_def)

text \<open>
  Three contacts and the query \<open>aDa\<close>: the first matches by its name, the third by its
  email, the second has no email and does not match.
\<close>

theorem query_returns_matches_witness:
  "valid_contacts at_and_dot
     [(0, \<lparr>name = PyStr ''Ada Lovelace'', phone = PyStr ''555-1234'',
           email = PyStr ''ada@example.com''\<rparr>),
      (1, \<lparr>name = PyStr ''Bob'', phone = PyStr ''777'', email = PyNone\<rparr>),
      (4, \<lparr>name = PyStr ''Zed'', phone = PyStr ''123'', email = PyStr ''z@ADA.org''\<rparr>)] \<and>
   query ascii_lower ''aDa''
     [(0, \<lparr>name = PyStr ''Ada Lovelace'', phone = PyStr ''555-1234'',
           email = PyStr ''ada@example.com''\<rparr>),
      (1, \<lparr>name = PyStr ''Bob'', phone = PyStr ''777'', email = PyNone\<rparr>),
      (4, \<lparr>name = PyStr ''Zed'', phone = PyStr ''123'', email = PyStr ''z@ADA.org''\<rparr>)] =
     Inr [0, 4]"
proof -
  define d where "d =
     [(0::int, \<lparr>name = PyStr ''Ada Lovelace'', phone = PyStr ''555-1234'',
           email = PyStr ''ada@example.com''\<rparr>),
      (1, \<lparr>name = PyStr ''Bob'', phone = PyStr ''777'', email = PyNone\<rparr>),
      (4, \<lparr>name = PyStr ''Zed'', phone = PyStr ''123'', email = PyStr ''z@ADA.org''\<rparr>)]"
  have v: "valid_contacts at_and_dot d"
    by (simp add: d_def valid_contacts_def valid_contact_def at_and_dot_def)
  have "map fst (filter (\<lambda>(idd, c). matches ascii_lower ''aDa'' c) d) = [0, 4]"
    unfolding d_def by code_simp
  with query_returns_matches [of at_and_dot d ascii_lower "''aDa''", OF v] v show ?thesis
    unfolding d_def by simp
qed

text \<open>
  C9. Called with the empty string, \<open>query\<close> returns the keys of all the contacts of a
  valid store in insertion order, since the lower-cased empty string is empty and the
  empty string is a substring of every name. \<open>action_search\<close> does not get there: on an
  empty answer it prints the empty-query message.
\<close>

theorem query_empty_string_returns_all:
  assumes "lower [] = []" and "valid_contacts validate_email (contacts st)"
  shows "query lower [] (contacts st) = Inr (map fst (contacts st)) \<and>
    action_search lower (Some []) st = Inr EmptyQuery"
proof -
  have m: "matches lower [] c" if "valid_contact validate_email c" for c
    using that assms(1)
    by (cases "name c") (auto simp: matches_def field_contains_def valid_contact_def)
  have "filter (\<lambda>(idd, c). matches lower [] c) (contacts st) = contacts st"
    using assms(2) m by (auto simp: valid_contacts_def list_all_iff filter_id_conv)
  then show ?thesis
    using query_loop_valid [OF assms(2), of lower "[]" "[]"] assms(1)
    by (simp add: query_def action_search_def)
qed

theorem query_empty_string_returns_all_witness:
  "ascii_lower [] = [] \<and>
   query ascii_lower []
     [(0, \<lparr>name = PyStr ''Ada Lovelace'', phone = PyStr ''555-1234'',
           email = PyStr ''ada@example.com''\<rparr>),
      (3, \<lparr>name = PyStr ''Bob'', phone = PyStr ''777'', email = PyNone\<rparr>)] = Inr [0, 3]"
proof -
  define st where "st = \<lparr>contacts =
     [(0::int, \<lparr>name = PyStr ''Ada Lovelace'', phone = PyStr ''555-1234'',
           email = PyStr ''ada@example.com''\<rparr>),
      (3, \<lparr>name = PyStr ''Bob'', phone = PyStr ''777'', email = PyNone\<rparr>)], next_id = 4\<rparr>"
  have l: "ascii_lower [] = []" by (simp add: ascii_lower_def)
  have v: "valid_contacts at_and_dot (contacts st)"
    by (simp add: st_def valid_contacts_def valid_contact_def at_and_dot_def)
  from query_empty_string_returns_all [of ascii_lower at_and_dot st, OF l v] l show ?thesis
    by (simp add: st_def)
qed

section \<open>Deletion\<close>

text \<open>
  C8. When \<open>del contacts[k]\<close> succeeds, a lookup of \<open>k\<close> in the dict that results raises
  \<open>KeyError\<close>, and so does a second \<open>del\<close> of \<open>k\<close>; the dict is the old one without the
  entry of \<open>k\<close>, in the same order, and every other key gives the contact it gave
  before. A deletion by \<open>action_delete\<close> is such a \<open>del\<close> and leaves the counter as it was.
\<close>

theorem delete_then_not_found:
  "(dict_delitem d k = Inr d' \<longrightarrow>
      dict_getitem d' k = Inl KeyError \<and> dict_delitem d' k = Inl KeyError \<and>
      d' = filter (\<lambda>(k', c). k' \<noteq> k) d \<and>
      (\<forall>k'. k' \<noteq> k \<longrightarrow> dict_getitem d' k' = dict_getitem d k')) \<and>
   (action_delete lower q chosen y st = Inr (Deleted, st') \<longrightarrow>
      (\<exists>k'. dict_delitem (contacts st) k' = Inr (contacts st')) \<and> next_id st' = next_id st)"
proof (intro conjI impI)
  assume del: "dict_delitem d k = Inr d'"
  then have d': "d' = AList.delete k d"
    by (simp add: dict_delitem_def split: if_splits)
  show "dict_getitem d' k = Inl KeyError"
    by (simp add: d' dict_getitem_def delete_conv')
  show "dict_delitem d' k = Inl KeyError"
    using delete_notin_dom [of k d] by (simp add: d' dict_delitem_def)
  show "d' = filter (\<lambda>(k', c). k' \<noteq> k) d"
    by (auto simp: d' AList.delete_eq intro: filter_cong)
  show "\<forall>k'. k' \<noteq> k \<longrightarrow> dict_getitem d' k' = dict_getitem d k'"
    by (simp add: d' dict_getitem_def delete_conv')
next
  assume a: "action_delete lower q chosen y st = Inr (Deleted, st')"
  then show "\<exists>k'. dict_delitem (contacts st) k' = Inr (contacts st')"
    by (auto simp: action_delete_def Let_def split: if_splits sum.splits option.splits)
  from a show "next_id st' = next_id st"
    by (auto simp: action_delete_def Let_def split: if_splits sum.splits option.splits)
qed

text \<open>Two contacts; the one under key 0 is deleted, by \<open>del\<close> and by the action.\<close>

theorem delete_then_not_found_witness:
  "dict_delitem
     [(0, \<lparr>name = PyStr ''Ada'', phone = PyStr ''555'', email = PyNone\<rparr>),
      (1, \<lparr>name = PyStr ''Bob'', phone = PyStr ''777'', email = PyNone\<rparr>)] 0 =
     Inr [(1, \<lparr>name = PyStr ''Bob'', phone = PyStr ''777'', email = PyNone\<rparr>)] \<and>
   dict_getitem [(1, \<lparr>name = PyStr ''Bob'', phone = PyStr ''777'', email = PyNone\<rparr>)] 0 =
     Inl KeyError \<and>
   dict_delitem [(1, \<lparr>name = PyStr ''Bob'', phone = PyStr ''777'', email = PyNone\<rparr>)] 0 =
     Inl KeyError \<and>
   dict_getitem [(1, \<lparr>name = PyStr ''Bob'', phone = PyStr ''777'', email = PyNone\<rparr>)] 1 =
     Inr \<lparr>name = PyStr ''Bob'', phone = PyStr ''777'', email = PyNone\<rparr> \<and>
   action_delete ascii_lower (Some ''ADA'') 0 (Some True)
     \<lparr>contacts =
        [(0, \<lparr>name = PyStr ''Ada'', phone = PyStr ''555'', email = PyNone\<rparr>),
         (1, \<lparr>name = PyStr ''Bob'', phone = PyStr ''777'', email = PyNone\<rparr>)],
      next_id = 2\<rparr> =
     Inr (Deleted,
       \<lparr>contacts = [(1, \<lparr>name = PyStr ''Bob'', phone = PyStr ''777'', email = PyNone\<rparr>)],
        next_id = 2\<rparr>)"
proof -
  define a where "a = \<lparr>name = PyStr ''Ada'', phone = PyStr ''555'', email = PyNone\<rparr>"
  define b where "b = \<lparr>name = PyStr ''Bob'', phone = PyStr ''777'', email = PyNone\<rparr>"
  have del: "dict_delitem [(0, a), (1, b)] 0 = Inr [(1, b)]"
    by (simp add: dict_delitem_def)
  have q: "query ascii_lower ''ADA'' [(0, a), (1, b)] = Inr [0]"
    unfolding a_def b_def by code_simp
  have act: "action_delete ascii_lower (Some ''ADA'') 0 (Some True)
      \<lparr>contacts = [(0, a), (1, b)], next_id = 2\<rparr> =
      Inr (Deleted, \<lparr>contacts = [(1, b)], next_id = 2\<rparr>)"
    by (simp add: action_delete_def q dict_delitem_def)
  from delete_then_not_found [of "[(0, a), (1, b)]" 0 "[(1, b)]" ascii_lower "Some ''ADA''" 0
      "Some True" "\<lparr>contacts = [(0, a), (1, b)], next_id = 2\<rparr>"
      "\<lparr>contacts = [(1, b)], next_id = 2\<rparr>"] del act
  have "dict_getitem [(1, b)] 0 = Inl KeyError \<and> dict_delitem [(1, b)] 0 = Inl KeyError \<and>
      dict_getitem [(1, b)] 1 = dict_getitem [(0, a), (1, b)] 1"
    by simp
  with del act show ?thesis
    unfolding a_def b_def by (simp add: dict_getitem_def)
qed

section \<open>The store after any run of the menu\<close>

text \<open>
  C2. A contact the constructor returns has a name and a phone that are non-empty
  strings and an email that is \<open>None\<close>, the empty string or a string the syntax check
  accepts. Every contact in the store has these properties after any run of menu
  choices from the empty store, whatever was answered at the prompts and whatever files
  were imported.
\<close>

theorem stored_contacts_valid:
  "(Contact_init validate_email n p e = Inr c \<longrightarrow> valid_contact validate_email c) \<and>
   (run validate_email lower acts init_state = Inr (outs, st) \<longrightarrow>
      valid_contacts validate_email (contacts st))"
proof (intro conjI impI)
  assume "Contact_init validate_email n p e = Inr c"
  then show "valid_contact validate_email c" by (rule Contact_init_valid)
next
  assume r: "run validate_email lower acts init_state = Inr (outs, st)"
  have "valid_contacts validate_email (contacts init_state)" "ids_ok init_state"
    by (simp_all add: init_state_def valid_contacts_def ids_ok_def)
  from run_effect [OF this r] show "valid_contacts validate_email (contacts st)"
    by simp
qed

text \<open>
  A run with a creation, a creation that fails, an import with a short row and a
  deletion.
\<close>

theorem stored_contacts_valid_witness:
  "Contact_init at_and_dot (PyStr ''Ada'') (PyStr ''555'') (PyStr ''ada@example.com'') =
     Inr \<lparr>name = PyStr ''Ada'', phone = PyStr ''555'', email = PyStr ''ada@example.com''\<rparr> \<and>
   valid_contact at_and_dot
     \<lparr>name = PyStr ''Ada'', phone = PyStr ''555'', email = PyStr ''ada@example.com''\<rparr> \<and>
   run at_and_dot ascii_lower
     [MenuCreate (PyStr ''Ada'') (PyStr ''555'') (PyStr ''ada@example.com''),
      MenuCreate (PyStr ''Bob'') (PyStr []) PyNone,
      MenuImport (Some [[''name'', ''phone''], [''Zed'', ''123''], [''Ann'']]),
      MenuDelete (Some ''ada'') 0 (Some True)]
     init_state =
     Inr ([Created, Error empty_phone, Imported 1 True [(1, empty_phone)], Deleted],
       \<lparr>contacts = [(1, \<lparr>name = PyStr ''Zed'', phone = PyStr ''123'', email = PyNone\<rparr>)],
        next_id = 2\<rparr>) \<and>
   valid_contacts at_and_dot
     [(1, \<lparr>name = PyStr ''Zed'', phone = PyStr ''123'', email = PyNone\<rparr>)]"
proof -
  define ada where
    "ada = \<lparr>name = PyStr ''Ada'', phone = PyStr ''555'', email = PyStr ''ada@example.com''\<rparr>"
  define acts where "acts =
     [MenuCreate (PyStr ''Ada'') (PyStr ''555'') (PyStr ''ada@example.com''),
      MenuCreate (PyStr ''Bob'') (PyStr []) PyNone,
      MenuImport (Some [[''name'', ''phone''], [''Zed'', ''123''], [''Ann'']]),
      MenuDelete (Some ''ada'') 0 (Some True)]"
  define st where "st =
       \<lparr>contacts = [(1::int, \<lparr>name = PyStr ''Zed'', phone = PyStr ''123'', email = PyNone\<rparr>)],
        next_id = 2\<rparr>"
  have c: "Contact_init at_and_dot (PyStr ''Ada'') (PyStr ''555'') (PyStr ''ada@example.com'') =
      Inr ada"
    unfolding ada_def by code_simp
  have r: "run at_and_dot ascii_lower acts init_state =
      Inr ([Created, Error empty_phone, Imported 1 True [(1, empty_phone)], Deleted], st)"
    unfolding acts_def st_def by code_simp
  from stored_contacts_valid [of at_and_dot "PyStr ''Ada''" "PyStr ''555''"
      "PyStr ''ada@example.com''" ada ascii_lower acts
      "[Created, Error empty_phone, Imported 1 True [(1, empty_phone)], Deleted]" st] c r
  have "valid_contact at_and_dot ada \<and> valid_contacts at_and_dot (contacts st)"
    by simp
  with c r show ?thesis
    unfolding ada_def acts_def st_def by simp
qed

text \<open>
  C6. The counter starts at 0. Take any run from the empty store to a store \<open>st\<close> and any
  run from \<open>st\<close> on to \<open>st'\<close>. The counter of each store is the number of contacts the
  messages up to it report as created, one for each \<open>Created\<close> and the count of each
  import, so it grows by one with each creation and with nothing else, a deletion
  included. In \<open>st'\<close> no key stands twice and every key is at least 0 and below the
  counter. A key below the counter of \<open>st\<close>, which is a key given out before, has in
  \<open>st'\<close> the contact it had in \<open>st\<close> or none: a key that was deleted stays away and no key
  is given to a second contact.
\<close>

theorem next_id_counts_creations:
  assumes "run validate_email lower acts init_state = Inr (outs, st)"
    and "run validate_email lower acts' st = Inr (outs', st')"
  shows "next_id init_state = 0 \<and>
    next_id st = int (sum_list (map created_of outs)) \<and>
    next_id st' = next_id st + int (sum_list (map created_of outs')) \<and>
    distinct (map fst (contacts st')) \<and>
    (\<forall>k \<in> set (map fst (contacts st')). 0 \<le> k \<and> k < next_id st') \<and>
    (\<forall>k. k < next_id st \<longrightarrow>
       map_of (contacts st') k = None \<or> map_of (contacts st') k = map_of (contacts st) k)"
proof -
  have i: "valid_contacts validate_email (contacts init_state)" "ids_ok init_state"
    by (simp_all add: init_state_def valid_contacts_def ids_ok_def)
  note one = run_effect [OF i assms(1)]
  then have v: "valid_contacts validate_email (contacts st)" and o: "ids_ok st"
    by simp_all
  note two = run_effect [OF v o assms(2)]
  from two have "ids_ok st'" by simp
  then have "distinct (map fst (contacts st'))"
    and "\<forall>k \<in> set (map fst (contacts st')). 0 \<le> k \<and> k < next_id st'"
    by (simp_all add: ids_ok_def list_all_iff)
  with one two show ?thesis
    by (simp add: init_state_def)
qed

text \<open>
  Two contacts are created (keys 0 and 1); then key 0 is deleted and the next contact
  gets key 2.
\<close>

theorem next_id_counts_creations_witness:
  "run at_and_dot ascii_lower
     [MenuCreate (PyStr ''Ada'') (PyStr ''555'') (PyStr ''ada@example.com''),
      MenuCreate (PyStr ''Bob'') (PyStr []) PyNone,
      MenuImport (Some [[''name'', ''phone''], [''Zed'', ''123''], [''Ann'']])]
     init_state =
     Inr ([Created, Error empty_phone, Imported 1 True [(1, empty_phone)]],
       \<lparr>contacts =
          [(0, \<lparr>name = PyStr ''Ada'', phone = PyStr ''555'', email = PyStr ''ada@example.com''\<rparr>),
           (1, \<lparr>name = PyStr ''Zed'', phone = PyStr ''123'', email = PyNone\<rparr>)],
        next_id = 2\<rparr>) \<and>
   run at_and_dot ascii_lower
     [MenuDelete (Some ''ada'') 0 (Some True), MenuCreate (PyStr ''Cy'') (PyStr ''9'') (PyStr [])]
     \<lparr>contacts =
        [(0, \<lparr>name = PyStr ''Ada'', phone = PyStr ''555'', email = PyStr ''ada@example.com''\<rparr>),
         (1, \<lparr>name = PyStr ''Zed'', phone = PyStr ''123'', email = PyNone\<rparr>)],
      next_id = 2\<rparr> =
     Inr ([Deleted, Created],
       \<lparr>contacts =
          [(1, \<lparr>name = PyStr ''Zed'', phone = PyStr ''123'', email = PyNone\<rparr>),
           (2, \<lparr>name = PyStr ''Cy'', phone = PyStr ''9'', email = PyStr []\<rparr>)],
        next_id = 3\<rparr>) \<and>
   (2::int) = int (sum_list (map created_of
      [Created, Error empty_phone, Imported 1 True [(1, empty_phone)]])) \<and>
   (3::int) = 2 + int (sum_list (map created_of [Deleted, Created]))"
proof -
  define acts where "acts =
     [MenuCreate (PyStr ''Ada'') (PyStr ''555'') (PyStr ''ada@example.com''),
      MenuCreate (PyStr ''Bob'') (PyStr []) PyNone,
      MenuImport (Some [[''name'', ''phone''], [''Zed'', ''123''], [''Ann'']])]"
  define st where "st =
       \<lparr>contacts =
          [(0::int, \<lparr>name = PyStr ''Ada'', phone = PyStr ''555'', email = PyStr ''ada@example.com''\<rparr>),
           (1, \<lparr>name = PyStr ''Zed'', phone = PyStr ''123'', email = PyNone\<rparr>)],
        next_id = 2\<rparr>"
  define acts' where "acts' =
     [MenuDelete (Some ''ada'') 0 (Some True), MenuCreate (PyStr ''Cy'') (PyStr ''9'') (PyStr [])]"
  define st' where "st' =
       \<lparr>contacts =
          [(1::int, \<lparr>name = PyStr ''Zed'', phone = PyStr ''123'', email = PyNone\<rparr>),
           (2, \<lparr>name = PyStr ''Cy'', phone = PyStr ''9'', email = PyStr []\<rparr>)],
        next_id = 3\<rparr>"
  have r: "run at_and_dot ascii_lower acts init_state =
      Inr ([Created, Error empty_phone, Imported 1 True [(1, empty_phone)]], st)"
    unfolding acts_def st_def by code_simp
  have r': "run at_and_dot ascii_lower acts' st = Inr ([Deleted, Created], st')"
    unfolding acts'_def st_def st'_def by code_simp
  from next_id_counts_creations [OF r r']
  have "next_id st = int (sum_list (map created_of
          [Created, Error empty_phone, Imported 1 True [(1, empty_phone)]])) \<and>
      next_id st' = next_id st + int (sum_list (map created_of [Deleted, Created]))"
    by simp
  with r r' show ?thesis
    unfolding acts_def acts'_def st_def st'_def by simp
qed

section \<open>Import and export\<close>

text \<open>
  C7. Importing a file that exists, into a store whose identifiers are in order. Each
  row has an outcome of its own, \<open>row_result\<close>, which depends on the row alone: in any
  store \<open>st0\<close> the body of the \<open>try\<close> raises the error of that outcome or stores its
  contact. A row with no value for the name or for the phone fails with the empty-field
  error of a field it has no value for, the name's when the name has none (the name is
  looked at first) and the phone's otherwise; any other row has the outcome of the
  constructor on its three values. The rows that fail are logged with their numbers and
  skipped, and the rows after them are still read. The contacts of the rows that pass
  are appended in order under the keys \<open>next_id\<close>, \<open>next_id + 1\<close> and so on, and the
  counter moves past them. The count printed is the number of rows that passed, and the
  flag is true exactly when some row failed.
\<close>

theorem import_rows_independent:
  assumes "ids_ok st"
  shows "action_import validate_email (Some rows) st =
      (Imported (length (row_contacts validate_email (DictReader rows)))
         (list_ex (\<lambda>row. isl (row_result validate_email row)) (DictReader rows))
         (row_errors validate_email (DictReader rows)),
       st\<lparr>contacts :=
            contacts st @ fresh_entries st (row_contacts validate_email (DictReader rows)),
          next_id := next_id st + int (length (row_contacts validate_email (DictReader rows)))\<rparr>) \<and>
    map fst (fresh_entries st (row_contacts validate_email (DictReader rows))) =
      map (\<lambda>i. next_id st + int i)
        [0..<length (row_contacts validate_email (DictReader rows))] \<and>
    import_try validate_email row st0 =
      (case row_result validate_email row of
         Inl ex \<Rightarrow> Inl ex
       | Inr c \<Rightarrow>
           Inr (st0\<lparr>contacts := AList.update (next_id st0) c (contacts st0),
                  next_id := next_id st0 + 1\<rparr>)) \<and>
    (row_get row ''name'' = PyNone \<or> row_get row ''phone'' = PyNone \<longrightarrow>
       row_get row ''name'' = PyNone \<and> row_result validate_email row = Inl empty_name \<or>
       row_get row ''phone'' = PyNone \<and> row_result validate_email row = Inl empty_phone) \<and>
    (row_get row ''name'' = PyNone \<longrightarrow> row_result validate_email row = Inl empty_name) \<and>
    (row_get row ''name'' \<noteq> PyNone \<and> row_get row ''phone'' = PyNone \<longrightarrow>
       row_result validate_email row = Inl empty_phone) \<and>
    (row_get row ''name'' \<noteq> PyNone \<and> row_get row ''phone'' \<noteq> PyNone \<longrightarrow>
       row_result validate_email row =
         Contact_init validate_email (row_get row ''name'') (row_get row ''phone'')
           (row_get row ''email''))"
  unfolding action_import_char [OF ids_ok_fresh [OF assms]]
  by (simp add: fresh_entries_def number_from_fst import_try_row_result)
     (simp add: row_result_def)

text \<open>
  The file of the specification's example with one more row, \<open>Bob\<close>, which has no
  phone; and a row of a file that has no name column.
\<close>

theorem import_rows_independent_witness:
  "ids_ok init_state \<and>
   action_import at_and_dot
     (Some [[''name'', ''phone'', ''email''], [''Ann'', [], ''x@y.com''], [''Zed'', ''123'', []],
            [''Bob'']])
     init_state =
     (Imported 1 True [(0, empty_phone), (2, empty_phone)],
      \<lparr>contacts = [(0, \<lparr>name = PyStr ''Zed'', phone = PyStr ''123'', email = PyStr []\<rparr>)],
       next_id = 1\<rparr>) \<and>
   row_result at_and_dot (row_dict [''phone''] [''1'']) = Inl empty_name \<and>
   row_result at_and_dot (row_dict [''name'', ''phone'', ''email''] [''Bob'']) = Inl empty_phone"
proof -
  define rows where "rows =
    [[''name'', ''phone'', ''email''], [''Ann'', [], ''x@y.com''], [''Zed'', ''123'', []], [''Bob'']]"
  have i: "ids_ok init_state"
    by (simp add: init_state_def ids_ok_def)
  have e1: "row_contacts at_and_dot (DictReader rows) =
      [\<lparr>name = PyStr ''Zed'', phone = PyStr ''123'', email = PyStr []\<rparr>]"
    unfolding rows_def by code_simp
  have e2: "row_errors at_and_dot (DictReader rows) = [(0, empty_phone), (2, empty_phone)]"
    unfolding rows_def by code_simp
  have e3: "list_ex (\<lambda>row. isl (row_result at_and_dot row)) (DictReader rows)"
    unfolding rows_def by code_simp
  have n: "row_get (row_dict [''phone''] [''1'']) ''name'' = PyNone"
    by (simp add: row_get_def row_dict_def)
  have p: "row_get (row_dict [''name'', ''phone'', ''email''] [''Bob'']) ''name'' \<noteq> PyNone \<and>
      row_get (row_dict [''name'', ''phone'', ''email''] [''Bob'']) ''phone'' = PyNone"
    by (simp add: row_get_def row_dict_def)
  from import_rows_independent [OF i, of at_and_dot rows "row_dict [''phone''] [''1'']"] n
  have a: "action_import at_and_dot (Some rows) init_state =
      (Imported 1 True [(0, empty_phone), (2, empty_phone)],
       \<lparr>contacts = [(0, \<lparr>name = PyStr ''Zed'', phone = PyStr ''123'', email = PyStr []\<rparr>)],
        next_id = 1\<rparr>)"
    and b: "row_result at_and_dot (row_dict [''phone''] [''1'']) = Inl empty_name"
    by (simp_all add: e1 e2 e3 fresh_entries_def init_state_def)
  from import_rows_independent [OF i, of at_and_dot rows
      "row_dict [''name'', ''phone'', ''email''] [''Bob'']"] p
  have c: "row_result at_and_dot (row_dict [''name'', ''phone'', ''email''] [''Bob'']) =
      Inl empty_phone"
    by simp
  from i a b c show ?thesis
    unfolding rows_def by simp
qed

text \<open>
  C4. The claim asks that every field comes back equal. That fails for a contact whose
  email is \<open>None\<close>: the file has an empty field for it, and the import stores the empty
  string. Such a contact comes from importing a file with no email column. Below, the
  store after that import, the rows it exports, the reader yielding these rows, the
  store after importing them, and the failure of \<open>roundtrip_equal\<close>.
\<close>

theorem export_import_roundtrip_counterexample:
  "snd (action_import at_and_dot (Some [[''name'', ''phone''], [''Ann'', ''1'']]) init_state) =
     \<lparr>contacts = [(0, \<lparr>name = PyStr ''Ann'', phone = PyStr ''1'', email = PyNone\<rparr>)],
      next_id = 1\<rparr> \<and>
   action_export
     \<lparr>contacts = [(0, \<lparr>name = PyStr ''Ann'', phone = PyStr ''1'', email = PyNone\<rparr>)],
      next_id = 1\<rparr> =
     (Exported, [[''name'', ''phone'', ''email''], [''Ann'', ''1'', []]]) \<and>
   read_back [[''name'', ''phone'', ''email''], [''Ann'', ''1'', []]] =
     Inr [[''name'', ''phone'', ''email''], [''Ann'', ''1'', []]] \<and>
   action_import at_and_dot (Some [[''name'', ''phone'', ''email''], [''Ann'', ''1'', []]])
     \<lparr>contacts = [(0, \<lparr>name = PyStr ''Ann'', phone = PyStr ''1'', email = PyNone\<rparr>)],
      next_id = 1\<rparr> =
     (Imported 1 False [],
      \<lparr>contacts = [(0, \<lparr>name = PyStr ''Ann'', phone = PyStr ''1'', email = PyNone\<rparr>),
                   (1, \<lparr>name = PyStr ''Ann'', phone = PyStr ''1'', email = PyStr []\<rparr>)],
       next_id = 2\<rparr>) \<and>
   \<not> roundtrip_equal at_and_dot
       \<lparr>contacts = [(0, \<lparr>name = PyStr ''Ann'', phone = PyStr ''1'', email = PyNone\<rparr>)],
        next_id = 1\<rparr>"
proof -
  define ann where "ann = \<lparr>name = PyStr ''Ann'', phone = PyStr ''1'', email = PyNone\<rparr>"
  define st where "st = \<lparr>contacts = [(0::int, ann)], next_id = 1\<rparr>"
  define rows where "rows = [[''name'', ''phone'', ''email''], [''Ann'', ''1'', []]]"
  have a: "snd (action_import at_and_dot (Some [[''name'', ''phone''], [''Ann'', ''1'']])
      init_state) = st"
    unfolding st_def ann_def by code_simp
  have b: "action_export st = (Exported, rows)"
    unfolding st_def ann_def rows_def by code_simp
  have c: "read_back rows = Inr rows"
    by (simp add: rows_def read_back_def field_size_limit_def)
  have d: "action_import at_and_dot (Some rows) st =
      (Imported 1 False [],
       \<lparr>contacts = [(0, ann), (1, ann\<lparr>email := PyStr []\<rparr>)], next_id = 2\<rparr>)"
    unfolding st_def ann_def rows_def by code_simp
  have e: "\<not> roundtrip_equal at_and_dot st"
    by (simp add: roundtrip_equal_def export_then_import_def b c d)
       (simp add: st_def ann_def fresh_entries_def)
  from a b c d e show ?thesis
    unfolding st_def ann_def rows_def by simp
qed

text \<open>
  C4, amended. Take a store with N valid contacts whose identifiers are in order and
  whose names, phones and emails are each at most 131072 characters long, the limit of
  the reader. Exporting it and importing the file raises nothing, skips no row and
  reports N; it keeps the old entries and appends N contacts under the new keys
  \<open>next_id\<close> to \<open>next_id + N - 1\<close>, none of them a key of the old store. The new contacts
  are the old ones in order, each with the same name, phone and email, except that an
  email \<open>None\<close> has become the empty string (\<open>through_csv\<close>). The statement is silent on
  a store with a longer field.
\<close>

theorem export_import_roundtrip:
  assumes "valid_contacts validate_email (contacts st)" and "ids_ok st"
    and "fields_within_limit (contacts st)"
  shows "export_then_import validate_email st =
      Inr (Imported (length (contacts st)) False [],
           st\<lparr>contacts :=
                contacts st @ fresh_entries st (map (through_csv \<circ> snd) (contacts st)),
              next_id := next_id st + int (length (contacts st))\<rparr>) \<and>
    map fst (fresh_entries st (map (through_csv \<circ> snd) (contacts st))) =
      map (\<lambda>i. next_id st + int i) [0..<length (contacts st)] \<and>
    list_all (\<lambda>k. next_id st \<le> k)
      (map fst (fresh_entries st (map (through_csv \<circ> snd) (contacts st))))"
  using assms(3)
  by (simp add: export_then_import_def read_back_exported
      import_of_exported_rows [OF assms(1,2)] fresh_entries_def number_from_fst list_all_iff)

theorem export_import_roundtrip_witness:
  "valid_contacts at_and_dot
     [(0, \<lparr>name = PyStr ''Ada'', phone = PyStr ''555'', email = PyStr ''ada@example.com''\<rparr>),
      (2, \<lparr>name = PyStr ''Ann'', phone = PyStr ''1'', email = PyNone\<rparr>)] \<and>
   ids_ok
     \<lparr>contacts =
        [(0, \<lparr>name = PyStr ''Ada'', phone = PyStr ''555'', email = PyStr ''ada@example.com''\<rparr>),
         (2, \<lparr>name = PyStr ''Ann'', phone = PyStr ''1'', email = PyNone\<rparr>)],
      next_id = 3\<rparr> \<and>
   fields_within_limit
     [(0, \<lparr>name = PyStr ''Ada'', phone = PyStr ''555'', email = PyStr ''ada@example.com''\<rparr>),
      (2, \<lparr>name = PyStr ''Ann'', phone = PyStr ''1'', email = PyNone\<rparr>)] \<and>
   export_then_import at_and_dot
     \<lparr>contacts =
        [(0, \<lparr>name = PyStr ''Ada'', phone = PyStr ''555'', email = PyStr ''ada@example.com''\<rparr>),
         (2, \<lparr>name = PyStr ''Ann'', phone = PyStr ''1'', email = PyNone\<rparr>)],
      next_id = 3\<rparr> =
     Inr (Imported 2 False [],
      \<lparr>contacts =
        [(0, \<lparr>name = PyStr ''Ada'', phone = PyStr ''555'', email = PyStr ''ada@example.com''\<rparr>),
         (2, \<lparr>name = PyStr ''Ann'', phone = PyStr ''1'', email = PyNone\<rparr>),
         (3, \<lparr>name = PyStr ''Ada'', phone = PyStr ''555'', email = PyStr ''ada@example.com''\<rparr>),
         (4, \<lparr>name = PyStr ''Ann'', phone = PyStr ''1'', email = PyStr []\<rparr>)],
       next_id = 5\<rparr>)"
proof -
  define st where "st =
     \<lparr>contacts =
        [(0::int, \<lparr>name = PyStr ''Ada'', phone = PyStr ''555'', email = PyStr ''ada@example.com''\<rparr>),
         (2, \<lparr>name = PyStr ''Ann'', phone = PyStr ''1'', email = PyNone\<rparr>)],
      next_id = 3\<rparr>"
  have v: "valid_contacts at_and_dot (contacts st)"
    by (simp add: st_def valid_contacts_def valid_contact_def at_and_dot_def)
  have i: "ids_ok st"
    by (simp add: st_def ids_ok_def)
  have l: "fields_within_limit (contacts st)"
    by (simp add: st_def fields_within_limit_def within_limit_def csv_field_def
        field_size_limit_def)
  from export_import_roundtrip [OF v i l] v i l show ?thesis
    by (simp add: st_def fresh_entries_def through_csv_def)
qed

end
